theory Spec2Isabelle
  imports Complex_Main "HOL-Library.Sublist" "HOL-Library.AList"
begin

section \<open>Rare format detection: a shallow embedding\<close>

text \<open>
  The development follows \<^verbatim>\<open>mlchecks/checks/integrity/rare_format_detection.py\<close>.
  Conventions of the embedding:
  \<^item> a pandas Series of strings (the source applies \<^verbatim>\<open>astype(str)\<close> first) is a
    \<open>string list\<close>, in row order;
  \<^item> the two float64 operations of the source, the test
    \<^verbatim>\<open>curr_value < sharp_drop_ratio_threshold * prev_value\<close> and the quotient of the two
    sums, are parameters of the partition; \<open>get_rare_vs_common_values\<close> is the partition
    with both computed exactly, on rationals, so without rounding;
  \<^item> the columns are lists of ASCII strings;
  \<^item> a raised exception is \<open>Inl e\<close> of a sum type, a normal return is \<open>Inr v\<close>;
  \<^item> \<^verbatim>\<open>None\<close> and the empty dict \<^verbatim>\<open>{}\<close> of a result are \<open>None\<close> of an option type.
\<close>

datatype py_error = IndexError | KeyError | TypeError | MLChecksValueError

subsection \<open>Frequency ranking (pandas \<^verbatim>\<open>value_counts\<close> and \<^verbatim>\<open>drop\<close>)\<close>

text \<open>The distinct values of a column, in the order of their first occurrence.\<close>

definition unique :: "'a list \<Rightarrow> 'a list" where
  "unique xs = rev (remdups (rev xs))"

text \<open>
  \<^verbatim>\<open>Series.value_counts()\<close> gives every distinct value with its number of occurrences,
  sorted by descending count. That much is its contract; the order of values of equal
  count depends on the version of pandas.
\<close>

definition is_value_counts :: "'a list \<Rightarrow> ('a \<times> nat) list \<Rightarrow> bool" where
  "is_value_counts col counted \<longleftrightarrow>
     distinct (map fst counted) \<and> set (map fst counted) = set col
     \<and> list_all (\<lambda>vc. snd vc = count_list col (fst vc)) counted
     \<and> sorted_wrt (\<lambda>a b. snd b \<le> snd a) counted"

text \<open>
  The value counts with the values of equal count in the order of their first
  occurrence (a stable sort).
\<close>

definition value_counts :: "'a list \<Rightarrow> ('a \<times> nat) list" where
  "value_counts col =
     sort_key (\<lambda>vc. - int (snd vc)) (map (\<lambda>v. (v, count_list col v)) (unique col))"

text \<open>\<^verbatim>\<open>.drop(label, errors='ignore')\<close>: the entry of that label is removed when present.\<close>

definition drop_label :: "'a \<Rightarrow> ('a \<times> nat) list \<Rightarrow> ('a \<times> nat) list" where
  "drop_label l vcs = filter (\<lambda>vc. fst vc \<noteq> l) vcs"

subsection \<open>\<^verbatim>\<open>get_rare_vs_common_values\<close>\<close>

text \<open>
  The loop
  \<^verbatim>\<open>for i, (prev_value, curr_value) in enumerate(zip(value_counts[:-1], value_counts[1:]))\<close>
  with its \<^verbatim>\<open>break\<close> and its \<^verbatim>\<open>else\<close>: \<open>Some i\<close> is the index at the break,
  \<open>None\<close> is the \<^verbatim>\<open>else\<close> branch. The parameter \<open>sharp_drop prev_value curr_value\<close> is
  the value of the test \<^verbatim>\<open>curr_value < sharp_drop_ratio_threshold * prev_value\<close>, as the
  float64 arithmetic of the source computes it.
\<close>

fun sharp_drop_loop :: "(nat \<Rightarrow> nat \<Rightarrow> bool) \<Rightarrow> (nat \<times> nat \<times> nat) list \<Rightarrow> nat option" where
  "sharp_drop_loop sharp_drop [] = None"
| "sharp_drop_loop sharp_drop ((i, prev_value, curr_value) # ps) =
     (if sharp_drop prev_value curr_value then Some i
      else sharp_drop_loop sharp_drop ps)"

definition adjacent_pairs :: "nat list \<Rightarrow> (nat \<times> nat \<times> nat) list" where
  "adjacent_pairs cs = enumerate 0 (zip (butlast cs) (tl cs))"

text \<open>
  The body of the function, from the series \<open>counted\<close> that \<^verbatim>\<open>col.value_counts()\<close>
  returns. The parameter \<open>ratio_of r c\<close> is the value of
  \<^verbatim>\<open>rare_values.sum() / common_values.sum()\<close> for the sums \<open>r\<close> and \<open>c\<close>. The result is the
  triple (ratio, rare values, common values); the source returns \<^verbatim>\<open>0, None, None\<close> when
  it finds no partition.
\<close>

definition get_rare_vs_common_values_with ::
  "(nat \<Rightarrow> nat \<Rightarrow> bool) \<Rightarrow> (nat \<Rightarrow> nat \<Rightarrow> rat) \<Rightarrow> (string \<times> nat) list
     \<Rightarrow> rat \<times> string list option \<times> string list option" where
  "get_rare_vs_common_values_with sharp_drop ratio_of counted =
     (let value_counts = drop_label [] counted in
      if length value_counts \<le> 1 then (0, None, None)
      else
        (case sharp_drop_loop sharp_drop (adjacent_pairs (map snd value_counts)) of
           None \<Rightarrow> (0, None, None)
         | Some i \<Rightarrow>
             (let rare_values = drop (i + 1) value_counts;
                  common_values = take (i + 1) value_counts;
                  rare_to_common_format_ratio =
                    ratio_of (sum_list (map snd rare_values)) (sum_list (map snd common_values))
              in (rare_to_common_format_ratio, Some (map fst rare_values), Some (map fst common_values)))))"

text \<open>
  The function on a column, with the test and the ratio computed exactly and the
  value counts in the order of first occurrence. It agrees with the source wherever no
  product \<^verbatim>\<open>sharp_drop_ratio_threshold * prev_value\<close> is rounded across \<^verbatim>\<open>curr_value\<close>,
  up to the rounding of the ratio and the order of values of equal count.
\<close>

definition get_rare_vs_common_values ::
  "string list \<Rightarrow> rat \<Rightarrow> rat \<times> string list option \<times> string list option" where
  "get_rare_vs_common_values col sharp_drop_ratio_threshold =
     get_rare_vs_common_values_with
       (\<lambda>prev_value curr_value. of_nat curr_value < sharp_drop_ratio_threshold * of_nat prev_value)
       (\<lambda>r c. of_nat r / of_nat c)
       (value_counts col)"

text \<open>The value counts that function works on: the ranking without the empty string.\<close>

definition ranking :: "string list \<Rightarrow> (string \<times> nat) list" where
  "ranking col = drop_label [] (value_counts col)"

subsection \<open>Patterns and skeletons (class \<^verbatim>\<open>Pattern\<close>)\<close>

text \<open>
  The regular expressions are handed to Python's \<^verbatim>\<open>re.sub\<close>. The embedding covers the
  two shapes the check uses: a character class \<^verbatim>\<open>[...]\<close> (also \<^verbatim>\<open>\d\<close> and a single
  literal character), given by its character ranges, and a class followed by
  \<^verbatim>\<open>+\<close>. On ASCII strings, which the embedding is about, \<^verbatim>\<open>\d\<close> is the range from 0
  to 9; on other strings \<^verbatim>\<open>\d\<close> matches every Unicode decimal digit, which is not
  modelled.
\<close>

datatype regex = Class "(char \<times> char) list" | ClassPlus "(char \<times> char) list"

definition in_class :: "(char \<times> char) list \<Rightarrow> char \<Rightarrow> bool" where
  "in_class rs c =
     list_ex (\<lambda>r. (of_char (fst r) :: nat) \<le> of_char c \<and> (of_char c :: nat) \<le> of_char (snd r)) rs"

text \<open>Replacing every maximal run of class characters; the flag says that a run is open.\<close>

fun sub_runs :: "(char \<times> char) list \<Rightarrow> string \<Rightarrow> bool \<Rightarrow> string \<Rightarrow> string" where
  "sub_runs rs repl in_run [] = []"
| "sub_runs rs repl in_run (c # cs) =
     (if in_class rs c then (if in_run then [] else repl) @ sub_runs rs repl True cs
      else c # sub_runs rs repl False cs)"

text \<open>\<^verbatim>\<open>re.sub(pattern, repl, s)\<close> for a replacement without escapes.\<close>

fun re_sub :: "regex \<Rightarrow> string \<Rightarrow> string \<Rightarrow> string" where
  "re_sub (Class rs) repl s = concat (map (\<lambda>c. if in_class rs c then repl else [c]) s)"
| "re_sub (ClassPlus rs) repl s = sub_runs rs repl False s"

text \<open>
  \<^verbatim>\<open>Pattern.__init__\<close> stores its arguments; a single tuple of substituters becomes the
  list of that tuple, so the field is always a list. It validates nothing.
\<close>

record pattern =
  name :: string
  substituters :: "(regex \<times> string) list"
  ignore :: "regex option"
  refine :: bool
  is_sequence :: bool

definition clean :: "pattern \<Rightarrow> string \<Rightarrow> string" where
  "clean p s = (case ignore p of None \<Rightarrow> s | Some rx \<Rightarrow> re_sub rx [] s)"

definition sub :: "pattern \<Rightarrow> string \<Rightarrow> string" where
  "sub p s = fold (\<lambda>subs s. re_sub (fst subs) (snd subs) s) (substituters p) (clean p s)"

definition is_format_significant :: "pattern \<Rightarrow> string \<Rightarrow> bool" where
  "is_format_significant p fmt = list_ex (\<lambda>sub. sublist (snd sub) fmt) (substituters p)"

subsection \<open>Tokenizers of \<^verbatim>\<open>mlchecks.base.string_utils\<close>\<close>

text \<open>
  Modelled from the spec: \<^verbatim>\<open>split_and_keep\<close> is imported from
  \<^verbatim>\<open>mlchecks.base.string_utils\<close>, whose source is not available. The specification says
  that it splits the skeleton on the filler literal and keeps the separator as a token
  of its own, so that literal segments and filler tokens alternate. It is a scan from
  left to right: where the separator starts, the segment read so far is closed and the
  separator is emitted; empty segments are not emitted.
\<close>

function split_scan :: "string \<Rightarrow> string \<Rightarrow> string \<Rightarrow> string list" where
  "split_scan sep cur [] = (if cur = [] then [] else [cur])"
| "split_scan sep cur (c # cs) =
     (if sep \<noteq> [] \<and> prefix sep (c # cs)
      then (if cur = [] then [] else [cur]) @ sep # split_scan sep [] (drop (length sep) (c # cs))
      else split_scan sep (cur @ [c]) cs)"
  by pat_completeness auto
termination
proof (relation "measure (\<lambda>(sep, cur, s). length s)")
  show "wf (measure (\<lambda>(sep, cur, s). length s))" by simp
next
  fix sep cur :: string and c :: char and cs :: string
  assume "sep \<noteq> [] \<and> prefix sep (c # cs)"
  then show "((sep, [], drop (length sep) (c # cs)), (sep, cur, c # cs))
               \<in> measure (\<lambda>(sep, cur, s). length s)"
    by (cases sep) simp_all
next
  fix sep cur :: string and c :: char and cs :: string
  show "((sep, cur @ [c], cs), (sep, cur, c # cs)) \<in> measure (\<lambda>(sep, cur, s). length s)"
    by simp
qed

definition split_and_keep :: "string \<Rightarrow> string \<Rightarrow> string list" where
  "split_and_keep s separator = split_scan separator [] s"

text \<open>The index of the first occurrence of a string in another, as \<^verbatim>\<open>str.find\<close>.\<close>

fun str_find :: "string \<Rightarrow> string \<Rightarrow> nat option" where
  "str_find sep [] = (if sep = [] then Some 0 else None)"
| "str_find sep (c # cs) =
     (if prefix sep (c # cs) then Some 0 else map_option Suc (str_find sep cs))"

text \<open>
  Modelled from the spec: \<^verbatim>\<open>split_and_keep_by_many\<close> is imported from
  \<^verbatim>\<open>mlchecks.base.string_utils\<close>, whose source is not available. The specification says
  that the literal segments of the skeleton act as split points on a sample, each kept
  as a token, so that the sample yields one token for every token of the skeleton, the
  runs at the filler positions included. The separators are therefore taken in the order
  of the skeleton, each once: the text before the first occurrence of the separator is
  a token (when it is not empty), the separator is the next one, and the rest of the
  sample is split by the remaining separators. What is left after the last separator,
  or where a separator does not occur, is one token.
\<close>

fun split_and_keep_by_many :: "string \<Rightarrow> string list \<Rightarrow> string list" where
  "split_and_keep_by_many s [] = (if s = [] then [] else [s])"
| "split_and_keep_by_many s (sep # separators) =
     (case str_find sep s of
        None \<Rightarrow> (if s = [] then [] else [s])
      | Some k \<Rightarrow>
          (if k = 0 then [] else [take k s])
          @ sep # split_and_keep_by_many (drop (k + length sep) s) separators)"

subsection \<open>\<^verbatim>\<open>_refine_formats\<close>\<close>

text \<open>A list comprehension or loop whose body may raise: the first error ends it.\<close>

fun map_result :: "('a \<Rightarrow> py_error + 'b) \<Rightarrow> 'a list \<Rightarrow> py_error + 'b list" where
  "map_result f [] = Inr []"
| "map_result f (x # xs) =
     (case f x of
        Inl e \<Rightarrow> Inl e
      | Inr y \<Rightarrow> (case map_result f xs of Inl e \<Rightarrow> Inl e | Inr ys \<Rightarrow> Inr (y # ys)))"

text \<open>
  \<^verbatim>\<open>all(split_sample[i] == common_value for split_sample in split_examples[1:])\<close>:
  the generator is consumed in order and stops at the first sample that differs; reading
  position \<open>i\<close> of a sample that is too short raises \<^verbatim>\<open>IndexError\<close>.
\<close>

fun all_agree :: "nat \<Rightarrow> string \<Rightarrow> string list list \<Rightarrow> py_error + bool" where
  "all_agree i common_value [] = Inr True"
| "all_agree i common_value (split_sample # rest) =
     (if length split_sample \<le> i then Inl IndexError
      else if split_sample ! i = common_value then all_agree i common_value rest
      else Inr False)"

text \<open>
  The loop \<^verbatim>\<open>for i in range(len(example))\<close>, over the list of the indices still to
  visit, with \<^verbatim>\<open>new_format\<close> as accumulator.
\<close>

fun refine_loop ::
  "string list \<Rightarrow> string \<Rightarrow> string list \<Rightarrow> string list list \<Rightarrow> nat list \<Rightarrow> string list
     \<Rightarrow> py_error + string list" where
  "refine_loop splt_fmt substr example rest [] new_format = Inr new_format"
| "refine_loop splt_fmt substr example rest (i # is) new_format =
     (if length splt_fmt \<le> i then Inl IndexError
      else if splt_fmt ! i \<noteq> substr
        then refine_loop splt_fmt substr example rest is (new_format @ [splt_fmt ! i])
      else
        (case all_agree i (example ! i) rest of
           Inl e \<Rightarrow> Inl e
         | Inr True \<Rightarrow> refine_loop splt_fmt substr example rest is (new_format @ [example ! i])
         | Inr False \<Rightarrow> refine_loop splt_fmt substr example rest is (new_format @ [splt_fmt ! i])))"

text \<open>The function from \<^verbatim>\<open>new_format = []\<close> on, for the two lists of tokens.\<close>

definition refine_tokens :: "string list \<Rightarrow> string \<Rightarrow> string list list \<Rightarrow> py_error + string" where
  "refine_tokens splt_fmt substr split_examples =
     (case split_examples of
        [] \<Rightarrow> Inl IndexError
      | example # rest \<Rightarrow>
          (case refine_loop splt_fmt substr example rest [0 ..< length example] [] of
             Inl e \<Rightarrow> Inl e
           | Inr new_format \<Rightarrow> Inr (concat new_format)))"

text \<open>
  The two tokenizers are parameters of the function, and they may raise: what the
  function does is then stated for every pair of tokenizers. In sequence mode the
  skeleton is tokenized first, then the samples in order, and an exception of a
  tokenizer ends the function. \<open>refine_formats\<close> below is the function with the
  tokenizers above, which do not raise.
\<close>

definition refine_formats_with ::
  "(string \<Rightarrow> string \<Rightarrow> py_error + string list)
     \<Rightarrow> (string \<Rightarrow> string list \<Rightarrow> py_error + string list)
     \<Rightarrow> string \<Rightarrow> string \<Rightarrow> string list \<Rightarrow> bool \<Rightarrow> py_error + string" where
  "refine_formats_with split_keep split_keep_many fmt substr samples is_substr_sequence =
     (if \<not> sublist substr fmt then Inr fmt
      else if is_substr_sequence then
        (case split_keep fmt substr of
           Inl e \<Rightarrow> Inl e
         | Inr splt_fmt \<Rightarrow>
             (let splt_fmt_wo_sep = filter (\<lambda>x. x \<noteq> substr) splt_fmt
              in (case map_result (\<lambda>s. split_keep_many s splt_fmt_wo_sep) samples of
                    Inl e \<Rightarrow> Inl e
                  | Inr split_examples \<Rightarrow> refine_tokens splt_fmt substr split_examples)))
      else refine_tokens (map (\<lambda>c. [c]) fmt) substr (map (map (\<lambda>c. [c])) samples))"

definition refine_formats :: "string \<Rightarrow> string \<Rightarrow> string list \<Rightarrow> bool \<Rightarrow> py_error + string" where
  "refine_formats =
     refine_formats_with (\<lambda>s separator. Inr (split_and_keep s separator))
       (\<lambda>s separators. Inr (split_and_keep_by_many s separators))"

subsection \<open>\<^verbatim>\<open>_detect_per_column_and_pattern\<close>\<close>

text \<open>
  The finding of one pattern on one column: the dict the source returns, with its four
  keys. The source stores the ratio as a percentage string (\<^verbatim>\<open>f'{ratio:.2%}'\<close>); the
  embedding keeps the number.
\<close>

record finding =
  ratio_of_rare_to_common :: rat
  common_formats :: "string list"
  common_values_examples :: "string list"
  values_in_rare_formats :: "string list"

text \<open>\<^verbatim>\<open>column[patterned_column == fmt]\<close>: the rows whose skeleton is \<open>fmt\<close>.\<close>

definition rows_of_format :: "string list \<Rightarrow> string list \<Rightarrow> string \<Rightarrow> string list" where
  "rows_of_format column patterned_column fmt =
     map fst (filter (\<lambda>r. snd r = fmt) (zip column patterned_column))"

text \<open>\<^verbatim>\<open>column[patterned_column == common_format].values[0]\<close>\<close>

definition first_example :: "string list \<Rightarrow> string list \<Rightarrow> string \<Rightarrow> py_error + string" where
  "first_example column patterned_column common_format =
     (case rows_of_format column patterned_column common_format of
        [] \<Rightarrow> Inl IndexError
      | v # _ \<Rightarrow> Inr v)"

text \<open>The body of the loop \<^verbatim>\<open>for i, fmt in enumerate(common_formats)\<close> under \<^verbatim>\<open>refine\<close>.\<close>

definition refine_one :: "string list \<Rightarrow> string list \<Rightarrow> pattern \<Rightarrow> string \<Rightarrow> py_error + string" where
  "refine_one column patterned_column p fmt =
     (let format_samples = map (clean p) (rows_of_format column patterned_column fmt)
      in (case substituters p of
            [] \<Rightarrow> Inl IndexError
          | s0 # _ \<Rightarrow> refine_formats fmt (snd s0) format_samples (is_sequence p)))"

text \<open>
  The column is already a list of strings. \<^verbatim>\<open>exclude_samples\<close> is the list the only
  caller passes. Iterating over \<^verbatim>\<open>None\<close>, and \<^verbatim>\<open>isin(None)\<close>, raise \<^verbatim>\<open>TypeError\<close>.
\<close>

definition detect_per_column_and_pattern ::
  "string list \<Rightarrow> pattern \<Rightarrow> rat \<Rightarrow> string list \<Rightarrow> py_error + finding option" where
  "detect_per_column_and_pattern column p rarity_threshold exclude_samples =
     (let patterned_column = map (sub p) column in
      (case get_rare_vs_common_values patterned_column rarity_threshold of
         (rare_to_common_format_ratio, rare_fmts, common_fmts) \<Rightarrow>
           if rare_to_common_format_ratio = 0 then Inr None
           else
             (case common_fmts of
                None \<Rightarrow> Inl TypeError
              | Some common_fmts \<Rightarrow>
                  if \<not> list_ex (is_format_significant p) common_fmts then Inr None
                  else
                    (case rare_fmts of
                       None \<Rightarrow> Inl TypeError
                     | Some rare_fmts \<Rightarrow>
                         (let rare_values =
                                map fst (filter (\<lambda>r. snd r \<in> set rare_fmts)
                                           (zip column patterned_column));
                              rare_values = filter (\<lambda>v. v \<notin> set exclude_samples) rare_values
                          in if rare_values = [] then Inr None
                             else
                               (case map_result (first_example column patterned_column)
                                       common_fmts of
                                  Inl e \<Rightarrow> Inl e
                                | Inr examples \<Rightarrow>
                                    (case (if refine p
                                           then map_result (refine_one column patterned_column p)
                                                  common_fmts
                                           else Inr common_fmts) of
                                       Inl e \<Rightarrow> Inl e
                                     | Inr formats \<Rightarrow>
                                         Inr (Some \<lparr>ratio_of_rare_to_common = rare_to_common_format_ratio,
                                                    common_formats = formats,
                                                    common_values_examples = examples,
                                                    values_in_rare_formats = unique rare_values\<rparr>))))))))"

subsection \<open>\<^verbatim>\<open>_detect_per_column\<close>\<close>

text \<open>
  The loop over the patterns, with the dict \<^verbatim>\<open>all_pattern_results\<close> (in insertion order;
  a pattern name seen again overwrites its entry) and the list \<^verbatim>\<open>formats_to_ignore\<close>
  as state.
\<close>

fun detect_loop ::
  "string list \<Rightarrow> rat \<Rightarrow> string \<Rightarrow> pattern list \<Rightarrow> (string \<times> finding option) list \<Rightarrow> string list
     \<Rightarrow> py_error + (string \<times> finding option) list" where
  "detect_loop column rarity_threshold pattern_match_method [] all_pattern_results formats_to_ignore =
     Inr all_pattern_results"
| "detect_loop column rarity_threshold pattern_match_method (p # ps) all_pattern_results formats_to_ignore =
     (case detect_per_column_and_pattern column p rarity_threshold formats_to_ignore of
        Inl e \<Rightarrow> Inl e
      | Inr res \<Rightarrow>
          detect_loop column rarity_threshold pattern_match_method ps
            (AList.update (name p) res all_pattern_results)
            (case res of
               Some f \<Rightarrow>
                 if pattern_match_method = ''first''
                 then formats_to_ignore @ values_in_rare_formats f
                 else formats_to_ignore
             | None \<Rightarrow> formats_to_ignore))"

text \<open>
  \<^verbatim>\<open>pd.DataFrame(all_pattern_results).dropna(axis=1, how='all')\<close>: one column per pattern
  name, and the patterns without a finding are dropped.
\<close>

definition dropna :: "(string \<times> finding option) list \<Rightarrow> (string \<times> finding) list" where
  "dropna results = concat (map (\<lambda>r. case snd r of None \<Rightarrow> [] | Some f \<Rightarrow> [(fst r, f)]) results)"

definition detect_per_column ::
  "string list \<Rightarrow> pattern list \<Rightarrow> rat \<Rightarrow> string \<Rightarrow> py_error + (string \<times> finding) list" where
  "detect_per_column column patterns rarity_threshold pattern_match_method =
     (case detect_loop column rarity_threshold pattern_match_method patterns [] [] of
        Inl e \<Rightarrow> Inl e
      | Inr all_pattern_results \<Rightarrow> Inr (dropna all_pattern_results))"

subsection \<open>\<^verbatim>\<open>rare_format_detection\<close>\<close>

text \<open>
  A validated dataset: its columns by name, each a list of strings, and its feature
  names. The argument \<^verbatim>\<open>column_names\<close> is \<^verbatim>\<open>None\<close>, a string or a list of strings.
\<close>

record dataset =
  data :: "(string \<times> string list) list"
  features :: "string list"

datatype column_names = NoNames | OneName string | Names "string list"

text \<open>\<^verbatim>\<open>column_names or dataset.features()\<close>, then the string made a list.\<close>

definition selected_columns :: "dataset \<Rightarrow> column_names \<Rightarrow> string list" where
  "selected_columns ds cn =
     (case cn of
        NoNames \<Rightarrow> features ds
      | OneName s \<Rightarrow> if s = [] then features ds else [s]
      | Names ns \<Rightarrow> if ns = [] then features ds else ns)"

text \<open>
  The dict comprehension over the column names: \<^verbatim>\<open>dataset.data[column_name]\<close> raises
  \<^verbatim>\<open>KeyError\<close> for an unknown column. The value of the check result is the dict.
\<close>

fun columns_loop ::
  "dataset \<Rightarrow> pattern list \<Rightarrow> rat \<Rightarrow> string \<Rightarrow> string list \<Rightarrow> (string \<times> (string \<times> finding) list) list
     \<Rightarrow> py_error + (string \<times> (string \<times> finding) list) list" where
  "columns_loop ds patterns rarity_threshold pattern_match_method [] res = Inr res"
| "columns_loop ds patterns rarity_threshold pattern_match_method (column_name # rest) res =
     (case map_of (data ds) column_name of
        None \<Rightarrow> Inl KeyError
      | Some column \<Rightarrow>
          (case detect_per_column column patterns rarity_threshold pattern_match_method of
             Inl e \<Rightarrow> Inl e
           | Inr value \<Rightarrow>
               columns_loop ds patterns rarity_threshold pattern_match_method rest
                 (AList.update column_name value res)))"

definition rare_format_detection ::
  "dataset \<Rightarrow> column_names \<Rightarrow> pattern list \<Rightarrow> rat \<Rightarrow> string
     \<Rightarrow> py_error + (string \<times> (string \<times> finding) list) list" where
  "rare_format_detection ds cn patterns rarity_threshold pattern_match_method =
     (let column_names = selected_columns ds cn in
      if pattern_match_method \<notin> set [''first'', ''all''] then Inl MLChecksValueError
      else columns_loop ds patterns rarity_threshold pattern_match_method column_names [])"

subsection \<open>Patterns of the source and of the scenarios\<close>

text \<open>
  The character classes of the source: \<^verbatim>\<open>\d\<close>, \<^verbatim>\<open>[A-Z]\<close>, \<^verbatim>\<open>[a-z]\<close>, \<^verbatim>\<open>[A-Z|a-z]\<close> (the bar
  is a member of the class) and \<^verbatim>\<open>[A-Z|a-z|d]\<close> (whose \<^verbatim>\<open>d\<close> is the letter).
\<close>

definition digit :: "(char \<times> char) list" where
  "digit = [(CHR ''0'', CHR ''9'')]"

definition upper :: "(char \<times> char) list" where
  "upper = [(CHR ''A'', CHR ''Z'')]"

definition lower :: "(char \<times> char) list" where
  "lower = [(CHR ''a'', CHR ''z'')]"

definition letter_or_bar :: "(char \<times> char) list" where
  "letter_or_bar = [(CHR ''A'', CHR ''Z''), (CHR ''|'', CHR ''|''), (CHR ''a'', CHR ''z'')]"

definition letter_or_bar_or_d :: "(char \<times> char) list" where
  "letter_or_bar_or_d =
     [(CHR ''A'', CHR ''Z''), (CHR ''|'', CHR ''|''), (CHR ''a'', CHR ''z''), (CHR ''d'', CHR ''d'')]"

definition DEFAULT_PATTERNS :: "pattern list" where
  "DEFAULT_PATTERNS =
     [\<lparr>name = ''digits and letters format (case sensitive)'',
       substituters = [(Class digit, ''0''), (Class upper, ''X''), (Class lower, ''x'')],
       ignore = None, refine = False, is_sequence = False\<rparr>,
      \<lparr>name = ''digits and letters format'',
       substituters = [(Class digit, ''0''), (Class letter_or_bar, ''X'')],
       ignore = None, refine = False, is_sequence = False\<rparr>,
      \<lparr>name = ''digits only format (ignoring letters)'',
       substituters = [(Class digit, ''0'')],
       ignore = Some (Class letter_or_bar), refine = True, is_sequence = False\<rparr>,
      \<lparr>name = ''letters only format (ignoring digits)'',
       substituters = [(Class letter_or_bar, ''X'')],
       ignore = Some (Class digit), refine = True, is_sequence = False\<rparr>,
      \<lparr>name = ''digits or letters format'',
       substituters = [(Class letter_or_bar_or_d, ''X'')],
       ignore = None, refine = True, is_sequence = True\<rparr>,
      \<lparr>name = ''sequences of digits only format (ignoring letters)'',
       substituters = [(ClassPlus digit, ''000'')],
       ignore = Some (Class letter_or_bar), refine = True, is_sequence = True\<rparr>,
      \<lparr>name = ''sequences of letters only format (ignoring letters)'',
       substituters = [(ClassPlus letter_or_bar, ''XXX'')],
       ignore = Some (Class digit), refine = True, is_sequence = True\<rparr>,
      \<lparr>name = ''any sequence format'',
       substituters = [(ClassPlus letter_or_bar_or_d, ''XXX'')],
       ignore = None, refine = True, is_sequence = True\<rparr>]"

text \<open>
  The pattern of scenario B: digits become \<^verbatim>\<open>0\<close>, letters become \<^verbatim>\<open>X\<close>, and the hyphen
  is ignored.
\<close>

definition digits_and_letters_ignoring_hyphen :: pattern where
  "digits_and_letters_ignoring_hyphen =
     \<lparr>name = ''digits and letters format (ignoring hyphens)'',
      substituters = [(Class digit, ''0''), (Class letter_or_bar, ''X'')],
      ignore = Some (Class [(CHR ''-'', CHR ''-'')]), refine = False, is_sequence = False\<rparr>"

text \<open>
  The rare values of the result of one pattern (the empty dict has none), and the raw
  values reported as rare by the findings of a result, in order: the union of the rare
  values across the findings of one column.
\<close>

definition rare_values_of :: "finding option \<Rightarrow> string list" where
  "rare_values_of res = (case res of None \<Rightarrow> [] | Some f \<Rightarrow> values_in_rare_formats f)"

definition reported_rare_values :: "(string \<times> finding) list \<Rightarrow> string list" where
  "reported_rare_values results = concat (map (\<lambda>r. values_in_rare_formats (snd r)) results)"

section \<open>Properties of the frequency ranking and of the partition\<close>

lemma set_unique: "set (unique xs) = set xs"
  by (simp add: unique_def)

lemma distinct_unique: "distinct (unique xs)"
  by (simp add: unique_def)

lemma set_value_counts: "set (value_counts col) = (\<lambda>v. (v, count_list col v)) ` set col"
  by (simp add: value_counts_def set_unique)

lemma map_fst_value_counts_set: "set (map fst (value_counts col)) = set col"
  by (simp add: set_value_counts image_image)

lemma distinct_value_counts: "distinct (map fst (value_counts col))"
proof -
  have d: "distinct (map (\<lambda>v. (v, count_list col v)) (unique col))"
    by (simp add: distinct_map distinct_unique inj_on_def)
  have "distinct (value_counts col)"
    unfolding value_counts_def using d by simp
  moreover have "inj_on fst (set (value_counts col))"
    by (auto simp: set_value_counts inj_on_def)
  ultimately show ?thesis by (simp add: distinct_map)
qed

lemma sorted_value_counts: "sorted_wrt (\<lambda>a b. snd b \<le> snd a) (value_counts col)"
proof -
  have "sorted (map (\<lambda>vc. - int (snd vc)) (value_counts col))"
    unfolding value_counts_def by (rule sorted_sort_key)
  then show ?thesis by (simp add: sorted_wrt_map)
qed

lemma value_counts_mem:
  "(v, c) \<in> set (value_counts col) \<longleftrightarrow> v \<in> set col \<and> c = count_list col v"
  unfolding set_value_counts image_iff by (simp add: conj_commute) 

lemma ranking_mem:
  "(v, c) \<in> set (ranking col) \<longleftrightarrow> v \<in> set col \<and> v \<noteq> [] \<and> c = count_list col v"
  unfolding ranking_def drop_label_def set_filter mem_Collect_eq value_counts_mem fst_conv
  by (intro iffI conjI; elim conjE; assumption)

lemma ranking_items: "set (map fst (ranking col)) = set col - {[]}"
proof (rule set_eqI)
  fix v
  have "v \<in> set (map fst (ranking col)) \<longleftrightarrow> (\<exists>c. (v, c) \<in> set (ranking col))"
    by (simp add: image_iff) force
  also have "\<dots> \<longleftrightarrow> v \<in> set col - {[]}"
    by (simp add: ranking_mem)
  finally show "v \<in> set (map fst (ranking col)) \<longleftrightarrow> v \<in> set col - {[]}" .
qed

lemma ranking_distinct: "distinct (map fst (ranking col))"
  unfolding ranking_def drop_label_def using distinct_value_counts[of col]
  by (simp add: distinct_map_filter)

lemma ranking_sorted: "sorted_wrt (\<lambda>a b. snd b \<le> snd a) (ranking col)"
  unfolding ranking_def drop_label_def using sorted_value_counts[of col]
  by (rule sorted_wrt_filter)

lemma ranking_count_pos: "vc \<in> set (ranking col) \<Longrightarrow> 0 < snd vc"
proof -
  assume a: "vc \<in> set (ranking col)"
  obtain v c where vc: "vc = (v, c)" by (cases vc)
  with a have "c = count_list col v" "v \<in> set col" by (simp_all add: ranking_mem)
  moreover from this have "count_list col v \<noteq> 0" by (simp add: count_list_0_iff)
  ultimately show ?thesis using vc by simp
qed

lemma length_adjacent_pairs: "length (adjacent_pairs cs) = length cs - 1"
  by (simp add: adjacent_pairs_def)

lemma nth_adjacent_pairs:
  "Suc j < length cs \<Longrightarrow> adjacent_pairs cs ! j = (j, cs ! j, cs ! Suc j)"
  by (simp add: adjacent_pairs_def nth_enumerate_eq nth_butlast nth_tl)

lemma sharp_drop_loop_None:
  "sharp_drop_loop sd ps = None \<longleftrightarrow> (\<forall>p \<in> set ps. \<not> sd (fst (snd p)) (snd (snd p)))"
  by (induction sd ps rule: sharp_drop_loop.induct) simp_all

lemma sharp_drop_loop_Some:
  "sharp_drop_loop sd ps = Some i \<Longrightarrow>
     \<exists>k < length ps. fst (ps ! k) = i
        \<and> sd (fst (snd (ps ! k))) (snd (snd (ps ! k)))
        \<and> (\<forall>j < k. \<not> sd (fst (snd (ps ! j))) (snd (snd (ps ! j))))"
proof (induction sd ps rule: sharp_drop_loop.induct)
  case (1 sd)
  then show ?case by simp
next
  case (2 sd i' prev_value curr_value ps)
  show ?case
  proof (cases "sd prev_value curr_value")
    case True
    with 2 have "i' = i" by simp
    with True show ?thesis by (intro exI[of _ 0]) simp
  next
    case False
    with 2 obtain k where k: "k < length ps" "fst (ps ! k) = i"
      "sd (fst (snd (ps ! k))) (snd (snd (ps ! k)))"
      "\<forall>j < k. \<not> sd (fst (snd (ps ! j))) (snd (snd (ps ! j)))"
      by auto
    have "\<not> sd (fst (snd (((i', prev_value, curr_value) # ps) ! j)))
               (snd (snd (((i', prev_value, curr_value) # ps) ! j)))"
      if "j < Suc k" for j
      using that False k(4) by (cases j) simp_all
    with k(1-3) show ?thesis
      by (intro exI[of _ "Suc k"]) simp
  qed
qed

text \<open>The loop over the adjacent pairs of a list of counts.\<close>

lemma sharp_drop_adjacent_None:
  "sharp_drop_loop sd (adjacent_pairs cs) = None \<longleftrightarrow>
     (\<forall>j. Suc j < length cs \<longrightarrow> \<not> sd (cs ! j) (cs ! Suc j))"
proof -
  have "(\<forall>p \<in> set (adjacent_pairs cs). \<not> sd (fst (snd p)) (snd (snd p)))
     \<longleftrightarrow> (\<forall>j < length (adjacent_pairs cs).
            \<not> sd (fst (snd (adjacent_pairs cs ! j))) (snd (snd (adjacent_pairs cs ! j))))"
    by (simp add: all_set_conv_all_nth)
  also have "\<dots> \<longleftrightarrow> (\<forall>j. Suc j < length cs \<longrightarrow> \<not> sd (cs ! j) (cs ! Suc j))"
    by (simp add: length_adjacent_pairs nth_adjacent_pairs less_diff_conv)
  finally show ?thesis by (simp add: sharp_drop_loop_None)
qed

lemma sharp_drop_adjacent_Some:
  assumes "sharp_drop_loop sd (adjacent_pairs cs) = Some i"
  shows "Suc i < length cs \<and> sd (cs ! i) (cs ! Suc i)
         \<and> (\<forall>j < i. \<not> sd (cs ! j) (cs ! Suc j))"
proof -
  from sharp_drop_loop_Some[OF assms] obtain k where k: "k < length (adjacent_pairs cs)"
    "fst (adjacent_pairs cs ! k) = i"
    "sd (fst (snd (adjacent_pairs cs ! k))) (snd (snd (adjacent_pairs cs ! k)))"
    "\<forall>j < k. \<not> sd (fst (snd (adjacent_pairs cs ! j))) (snd (snd (adjacent_pairs cs ! j)))"
    by blast
  from k(1) have sk: "Suc k < length cs" by (simp add: length_adjacent_pairs)
  with k(2) have ki: "k = i" by (simp add: nth_adjacent_pairs)
  have "\<not> sd (cs ! j) (cs ! Suc j)" if "j < i" for j
  proof -
    from that ki sk have sj: "Suc j < length cs" by simp
    from k(4) that ki
    have "\<not> sd (fst (snd (adjacent_pairs cs ! j))) (snd (snd (adjacent_pairs cs ! j)))"
      by blast
    then show ?thesis by (simp add: nth_adjacent_pairs[OF sj])
  qed
  with k(3) sk ki show ?thesis by (simp add: nth_adjacent_pairs)
qed

lemma sharp_drop_ranked_None:
  "sharp_drop_loop sd (adjacent_pairs (map snd vc)) = None \<longleftrightarrow>
     (\<forall>j. Suc j < length vc \<longrightarrow> \<not> sd (snd (vc ! j)) (snd (vc ! Suc j)))"
  by (simp add: sharp_drop_adjacent_None)

lemma sharp_drop_ranked_Some:
  assumes "sharp_drop_loop sd (adjacent_pairs (map snd vc)) = Some i"
  shows "Suc i < length vc"
    and "sd (snd (vc ! i)) (snd (vc ! Suc i))"
    and "\<forall>j < i. \<not> sd (snd (vc ! j)) (snd (vc ! Suc j))"
proof -
  note h = sharp_drop_adjacent_Some[OF assms]
  from h show i: "Suc i < length vc" by simp
  from h i show "sd (snd (vc ! i)) (snd (vc ! Suc i))" by simp
  from h i show "\<forall>j < i. \<not> sd (snd (vc ! j)) (snd (vc ! Suc j))" by simp
qed

text \<open>The three outcomes of the partition, for every test and every quotient.\<close>

lemma get_with_sentinel_short:
  "length (drop_label [] counted) \<le> 1 \<Longrightarrow>
     get_rare_vs_common_values_with sd ratio_of counted = (0, None, None)"
  by (simp add: get_rare_vs_common_values_with_def Let_def)

lemma get_with_sentinel_no_drop:
  assumes "\<forall>j. Suc j < length (drop_label [] counted) \<longrightarrow>
             \<not> sd (snd (drop_label [] counted ! j)) (snd (drop_label [] counted ! Suc j))"
  shows "get_rare_vs_common_values_with sd ratio_of counted = (0, None, None)"
proof -
  have "sharp_drop_loop sd (adjacent_pairs (map snd (drop_label [] counted))) = None"
    unfolding sharp_drop_ranked_None using assms by simp
  then show ?thesis by (simp add: get_rare_vs_common_values_with_def Let_def)
qed

lemma get_with_found:
  assumes vc: "vc = drop_label [] counted"
    and i: "Suc i < length vc"
    and d: "sd (snd (vc ! i)) (snd (vc ! Suc i))"
    and m: "\<forall>j < i. \<not> sd (snd (vc ! j)) (snd (vc ! Suc j))"
  shows "get_rare_vs_common_values_with sd ratio_of counted =
           (ratio_of (sum_list (map snd (drop (Suc i) vc))) (sum_list (map snd (take (Suc i) vc))),
            Some (map fst (drop (Suc i) vc)),
            Some (map fst (take (Suc i) vc)))"
proof -
  have "sharp_drop_loop sd (adjacent_pairs (map snd vc)) \<noteq> None"
    unfolding sharp_drop_ranked_None using i d by blast
  then obtain k where k: "sharp_drop_loop sd (adjacent_pairs (map snd vc)) = Some k" by blast
  note k1 = sharp_drop_ranked_Some(1)[OF k]
    and k2 = sharp_drop_ranked_Some(2)[OF k]
    and k3 = sharp_drop_ranked_Some(3)[OF k]
  have "\<not> k < i"
  proof
    assume "k < i"
    with m have "\<not> sd (snd (vc ! k)) (snd (vc ! Suc k))" by blast
    with k2 show False by simp
  qed
  moreover have "\<not> i < k"
  proof
    assume "i < k"
    with k3 have "\<not> sd (snd (vc ! i)) (snd (vc ! Suc i))" by blast
    with d show False by simp
  qed
  ultimately have "k = i" by simp
  with k i show ?thesis
    unfolding vc by (simp add: get_rare_vs_common_values_with_def Let_def)
qed

text \<open>The same for the function with the exact test and quotient.\<close>

lemma get_rare_sentinel_short:
  "length (ranking col) \<le> 1 \<Longrightarrow> get_rare_vs_common_values col thr = (0, None, None)"
  unfolding ranking_def get_rare_vs_common_values_def by (rule get_with_sentinel_short)

lemma get_rare_sentinel_no_drop:
  assumes "\<forall>j. Suc j < length (ranking col) \<longrightarrow>
             \<not> of_nat (snd (ranking col ! Suc j)) < thr * of_nat (snd (ranking col ! j))"
  shows "get_rare_vs_common_values col thr = (0, None, None)"
  unfolding get_rare_vs_common_values_def
  by (rule get_with_sentinel_no_drop) (use assms in \<open>simp add: ranking_def\<close>)

lemma get_rare_found:
  assumes i: "Suc i < length (ranking col)"
    and d: "of_nat (snd (ranking col ! Suc i)) < thr * of_nat (snd (ranking col ! i))"
    and m: "\<forall>j < i. \<not> of_nat (snd (ranking col ! Suc j)) < thr * of_nat (snd (ranking col ! j))"
  shows "get_rare_vs_common_values col thr =
           (of_nat (sum_list (map snd (drop (Suc i) (ranking col))))
              / of_nat (sum_list (map snd (take (Suc i) (ranking col)))),
            Some (map fst (drop (Suc i) (ranking col))),
            Some (map fst (take (Suc i) (ranking col))))"
  unfolding get_rare_vs_common_values_def
  by (rule get_with_found[where vc = "ranking col" and i = i]) (use i d m in \<open>simp_all add: ranking_def\<close>)

lemma get_rare_cases:
  obtains (sentinel) "get_rare_vs_common_values col thr = (0, None, None)"
      "length (ranking col) \<le> 1 \<or> (\<forall>j. Suc j < length (ranking col) \<longrightarrow>
             \<not> of_nat (snd (ranking col ! Suc j)) < thr * of_nat (snd (ranking col ! j)))"
  | (found) i where "Suc i < length (ranking col)"
      "of_nat (snd (ranking col ! Suc i)) < thr * of_nat (snd (ranking col ! i))"
      "\<forall>j < i. \<not> of_nat (snd (ranking col ! Suc j)) < thr * of_nat (snd (ranking col ! j))"
      "get_rare_vs_common_values col thr =
           (of_nat (sum_list (map snd (drop (Suc i) (ranking col))))
              / of_nat (sum_list (map snd (take (Suc i) (ranking col)))),
            Some (map fst (drop (Suc i) (ranking col))),
            Some (map fst (take (Suc i) (ranking col))))"
proof (cases "\<forall>j. Suc j < length (ranking col) \<longrightarrow>
             \<not> of_nat (snd (ranking col ! Suc j)) < thr * of_nat (snd (ranking col ! j))")
  case True
  then show ?thesis using get_rare_sentinel_no_drop[OF True] sentinel by blast
next
  case False
  define P where "P j \<longleftrightarrow> Suc j < length (ranking col) \<and>
             of_nat (snd (ranking col ! Suc j)) < thr * of_nat (snd (ranking col ! j))" for j
  from False have "\<exists>j. P j" by (auto simp: P_def)
  then have L: "P (LEAST j. P j)" by (rule LeastI_ex)
  have M: "\<not> P j" if "j < (LEAST j. P j)" for j using that by (rule not_less_Least)
  let ?i = "LEAST j. P j"
  have i: "Suc ?i < length (ranking col)" using L by (simp add: P_def)
  have d: "of_nat (snd (ranking col ! Suc ?i)) < thr * of_nat (snd (ranking col ! ?i))"
    using L by (simp add: P_def)
  have m: "\<forall>j < ?i. \<not> of_nat (snd (ranking col ! Suc j)) < thr * of_nat (snd (ranking col ! j))"
  proof (intro allI impI)
    fix j assume j: "j < ?i"
    then have "\<not> P j" by (rule M)
    moreover from j i have "Suc j < length (ranking col)" by simp
    ultimately show "\<not> of_nat (snd (ranking col ! Suc j)) < thr * of_nat (snd (ranking col ! j))"
      by (simp add: P_def)
  qed
  from found[OF i d m get_rare_found[OF i d m]] show ?thesis .
qed

subsection \<open>Positive counts\<close>

lemma sum_list_pos_nat:
  fixes xs :: "nat list"
  shows "xs \<noteq> [] \<Longrightarrow> \<forall>x \<in> set xs. 0 < x \<Longrightarrow> 0 < sum_list xs"
  by (cases xs) simp_all

lemma ranking_counts_pos: "\<forall>c \<in> set (map snd (ranking col)). 0 < c"
  using ranking_count_pos[of _ col] by auto

lemma take_counts_pos:
  assumes "Suc i < length (ranking col)"
  shows "0 < sum_list (map snd (take (Suc i) (ranking col)))"
proof (rule sum_list_pos_nat)
  from assms show "map snd (take (Suc i) (ranking col)) \<noteq> []" by auto
  show "\<forall>x \<in> set (map snd (take (Suc i) (ranking col))). 0 < x"
    using ranking_count_pos[of _ col] set_take_subset[of "Suc i" "ranking col"] by auto
qed

lemma drop_counts_pos:
  assumes "Suc i < length (ranking col)"
  shows "0 < sum_list (map snd (drop (Suc i) (ranking col)))"
proof (rule sum_list_pos_nat)
  from assms show "map snd (drop (Suc i) (ranking col)) \<noteq> []" by simp
  show "\<forall>x \<in> set (map snd (drop (Suc i) (ranking col))). 0 < x"
    using ranking_count_pos[of _ col] set_drop_subset[of "Suc i" "ranking col"] by auto
qed

subsection \<open>The scan for the sharp drop\<close>

lemma value_counts_is_value_counts: "is_value_counts col (value_counts col)"
proof -
  have "list_all (\<lambda>vc. snd vc = count_list col (fst vc)) (value_counts col)"
    unfolding list_all_iff
  proof
    fix vc assume a: "vc \<in> set (value_counts col)"
    obtain v c where vc: "vc = (v, c)" by (cases vc)
    with a show "snd vc = count_list col (fst vc)" by (simp add: value_counts_mem)
  qed
  then show ?thesis
    unfolding is_value_counts_def
    using distinct_value_counts[of col] map_fst_value_counts_set[of col] sorted_value_counts[of col]
    by (intro conjI)
qed





subsection \<open>The ratio of a partition is positive\<close>

text \<open>
  Claim C10. Whatever \<^verbatim>\<open>get_rare_vs_common_values\<close> returns, its ratio is 0 exactly when
  the two lists are \<^verbatim>\<open>None\<close>; and when the ratio is not 0 a boundary was found: both
  sides are non-empty, every count is positive, so both sums are positive, the division
  is defined and the ratio is greater than 0. The test \<^verbatim>\<open>ratio == 0\<close> of the caller
  therefore separates the sentinel from a partition.
\<close>

theorem ratio_zero_iff_no_partition:
  assumes "get_rare_vs_common_values col thr = (r, rare, common)"
  shows "(r = 0 \<longleftrightarrow> rare = None \<and> common = None)
       \<and> (r \<noteq> 0 \<longrightarrow> 0 < r \<and>
            (\<exists>i. Suc i < length (ranking col)
               \<and> rare = Some (map fst (drop (Suc i) (ranking col)))
               \<and> common = Some (map fst (take (Suc i) (ranking col)))
               \<and> drop (Suc i) (ranking col) \<noteq> [] \<and> take (Suc i) (ranking col) \<noteq> []
               \<and> (\<forall>vc \<in> set (ranking col). 0 < snd vc)
               \<and> 0 < sum_list (map snd (drop (Suc i) (ranking col)))
               \<and> 0 < sum_list (map snd (take (Suc i) (ranking col)))
               \<and> r = of_nat (sum_list (map snd (drop (Suc i) (ranking col))))
                       / of_nat (sum_list (map snd (take (Suc i) (ranking col))))))"
proof (cases rule: get_rare_cases[of col thr])
  case sentinel
  with assms show ?thesis by simp
next
  case (found i)
  let ?rs = "sum_list (map snd (drop (Suc i) (ranking col)))"
  let ?cs = "sum_list (map snd (take (Suc i) (ranking col)))"
  have rs: "0 < ?rs" using found(1) by (rule drop_counts_pos)
  have cs: "0 < ?cs" using found(1) by (rule take_counts_pos)
  from found(4) assms have r: "r = of_nat ?rs / of_nat ?cs"
    and rare: "rare = Some (map fst (drop (Suc i) (ranking col)))"
    and common: "common = Some (map fst (take (Suc i) (ranking col)))"
    by simp_all
  from rs cs have pos: "0 < r" unfolding r by simp
  have ne: "drop (Suc i) (ranking col) \<noteq> []" "take (Suc i) (ranking col) \<noteq> []"
    using found(1) by auto
  have allpos: "\<forall>vc \<in> set (ranking col). 0 < snd vc"
    using ranking_count_pos[of _ col] by blast
  have ex: "\<exists>i. Suc i < length (ranking col)
               \<and> rare = Some (map fst (drop (Suc i) (ranking col)))
               \<and> common = Some (map fst (take (Suc i) (ranking col)))
               \<and> drop (Suc i) (ranking col) \<noteq> [] \<and> take (Suc i) (ranking col) \<noteq> []
               \<and> (\<forall>vc \<in> set (ranking col). 0 < snd vc)
               \<and> 0 < sum_list (map snd (drop (Suc i) (ranking col)))
               \<and> 0 < sum_list (map snd (take (Suc i) (ranking col)))
               \<and> r = of_nat (sum_list (map snd (drop (Suc i) (ranking col))))
                       / of_nat (sum_list (map snd (take (Suc i) (ranking col))))"
    using found(1) rare common ne allpos rs cs r by (intro exI[of _ i] conjI)
  from pos have "r \<noteq> 0" by simp
  with pos ex rare show ?thesis by simp
qed

text \<open>
  A partition with ratio 1/3 and a sentinel, on the same column.
\<close>

theorem ratio_zero_iff_no_partition_witness:
  "get_rare_vs_common_values [''aa'', ''b'', ''aa'', [], ''aa''] (1 / 2) = (1 / 3, Some [''b''], Some [''aa''])
   \<and> ((1 / 3 :: rat) = 0 \<longleftrightarrow> Some [''b''] = (None :: string list option) \<and> Some [''aa''] = (None :: string list option))
   \<and> (0 :: rat) < 1 / 3
   \<and> get_rare_vs_common_values [''aa'', ''b'', ''aa'', [], ''aa''] (1 / 20) = (0, None, None)
   \<and> ((0 :: rat) = 0 \<longleftrightarrow> (None :: string list option) = None \<and> (None :: string list option) = None)"
proof -
  have h: "get_rare_vs_common_values [''aa'', ''b'', ''aa'', [], ''aa''] (1 / 2) = (1 / 3, Some [''b''], Some [''aa''])"
    by code_simp
  have h0: "get_rare_vs_common_values [''aa'', ''b'', ''aa'', [], ''aa''] (1 / 20) = (0, None, None)"
    by code_simp
  from ratio_zero_iff_no_partition[OF h] ratio_zero_iff_no_partition[OF h0] h h0
  show ?thesis by simp
qed

subsection \<open>The two sides of a partition\<close>

text \<open>
  Claim C2, amended. When a partition is returned, the common and the rare values
  together are exactly the distinct values of the column other than the empty string
  (which is dropped before the ranking), no value is on both sides, and no side repeats
  a value.
\<close>

theorem partition_covers_nonempty_items:
  assumes "get_rare_vs_common_values col thr = (r, Some rare, Some common)"
  shows "set common \<union> set rare = set col - {[]} \<and> set common \<inter> set rare = {}
       \<and> distinct common \<and> distinct rare"
proof (cases rule: get_rare_cases[of col thr])
  case sentinel
  with assms show ?thesis by simp
next
  case (found i)
  from found(4) assms have c: "common = map fst (take (Suc i) (ranking col))"
    and r: "rare = map fst (drop (Suc i) (ranking col))" by simp_all
  have "common @ rare = map fst (take (Suc i) (ranking col) @ drop (Suc i) (ranking col))"
    unfolding c r by (simp only: map_append)
  then have eq: "common @ rare = map fst (ranking col)" by (simp only: append_take_drop_id)
  have d: "distinct (common @ rare)" unfolding eq by (rule ranking_distinct)
  have "set (common @ rare) = set col - {[]}" unfolding eq by (rule ranking_items)
  with d show ?thesis by simp
qed

text \<open>
  The claim as stated, with all distinct values of the column, fails on a column that
  holds the empty string: the empty string is on neither side.
\<close>

theorem partition_drops_empty_string_counterexample:
  "get_rare_vs_common_values [[], ''a'', ''a'', ''a'', ''b''] (1 / 2) = (1 / 3, Some [''b''], Some [''a''])
   \<and> set [''a''] \<union> set [''b''] \<noteq> set [[], ''a'', ''a'', ''a'', ''b'']"
proof
  show "get_rare_vs_common_values [[], ''a'', ''a'', ''a'', ''b''] (1 / 2) = (1 / 3, Some [''b''], Some [''a''])"
    by code_simp
  show "set [''a''] \<union> set [''b''] \<noteq> set [[], ''a'', ''a'', ''a'', ''b'']"
    by auto
qed

text \<open>
  The amended statement at that column.
\<close>

theorem partition_covers_nonempty_items_witness:
  "get_rare_vs_common_values [[], ''a'', ''a'', ''a'', ''b''] (1 / 2) = (1 / 3, Some [''b''], Some [''a''])
   \<and> set [''a''] \<union> set [''b''] = set [[], ''a'', ''a'', ''a'', ''b''] - {[]}
   \<and> set [''a''] \<inter> set [''b''] = {}"
proof -
  have h: "get_rare_vs_common_values [[], ''a'', ''a'', ''a'', ''b''] (1 / 2) = (1 / 3, Some [''b''], Some [''a''])"
    by code_simp
  from partition_covers_nonempty_items[OF h] h show ?thesis by (intro conjI) simp_all
qed

subsection \<open>Raising the threshold\<close>

text \<open>
  Claim C3, amended. For thresholds \<open>t1 \<le> t2\<close>: when a partition is returned under
  \<open>t1\<close>, one is returned under \<open>t2\<close> too; its common values are a prefix of the common
  values under \<open>t1\<close> and the rare values under \<open>t1\<close> are a suffix of its rare values, so
  values only move from the common to the rare side; and both partitions hold the same
  values in the same order, hence the same number of them.
\<close>

theorem threshold_monotone:
  assumes le: "t1 \<le> t2"
    and p1: "get_rare_vs_common_values col t1 = (r1, Some rare1, Some common1)"
  shows "\<exists>r2 rare2 common2.
           get_rare_vs_common_values col t2 = (r2, Some rare2, Some common2)
         \<and> prefix common2 common1 \<and> suffix rare1 rare2
         \<and> common2 @ rare2 = common1 @ rare1
         \<and> length common2 + length rare2 = length common1 + length rare1"
proof (cases rule: get_rare_cases[of col t1])
  case sentinel
  with p1 show ?thesis by simp
next
  case found1: (found i1)
  let ?vc = "ranking col"
  from found1(4) p1 have c1: "common1 = map fst (take (Suc i1) ?vc)"
    and r1: "rare1 = map fst (drop (Suc i1) ?vc)" by simp_all
  have "t1 * of_nat (snd (?vc ! i1)) \<le> t2 * of_nat (snd (?vc ! i1))"
    using le by (rule mult_right_mono) simp
  with found1(2) have d2: "of_nat (snd (?vc ! Suc i1)) < t2 * of_nat (snd (?vc ! i1))"
    by simp
  show ?thesis
  proof (cases rule: get_rare_cases[of col t2])
    case sentinel
    from sentinel(2) found1(1) d2 show ?thesis by auto
  next
    case found2: (found i2)
    have "\<not> i1 < i2"
    proof
      assume "i1 < i2"
      with found2(3) have "\<not> of_nat (snd (?vc ! Suc i1)) < t2 * of_nat (snd (?vc ! i1))" by blast
      with d2 show False by simp
    qed
    then have i: "i2 \<le> i1" by simp
    let ?c2 = "map fst (take (Suc i2) ?vc)" and ?r2 = "map fst (drop (Suc i2) ?vc)"
    have "take (Suc i2) ?vc = take (Suc i2) (take (Suc i1) ?vc)"
      using i by (simp add: min_def)
    then have "prefix (take (Suc i2) ?vc) (take (Suc i1) ?vc)"
      by (metis take_is_prefix)
    then have pre: "prefix ?c2 common1" unfolding c1 by (rule map_mono_prefix)
    have "drop (Suc i1) ?vc = drop (i1 - i2) (drop (Suc i2) ?vc)"
      using i by simp
    then have "suffix (drop (Suc i1) ?vc) (drop (Suc i2) ?vc)"
      by (metis suffix_drop)
    then have suf: "suffix rare1 ?r2" unfolding r1 by (rule map_mono_suffix)
    have e1: "common1 @ rare1 = map fst ?vc"
      unfolding c1 r1 by (simp only: map_append[symmetric] append_take_drop_id)
    have e2: "?c2 @ ?r2 = map fst ?vc"
      by (simp only: map_append[symmetric] append_take_drop_id)
    have len: "length ?c2 + length ?r2 = length common1 + length rare1"
      using arg_cong[OF e1, of length] arg_cong[OF e2, of length] by simp
    from found2(4) pre suf e1 e2 len show ?thesis by simp
  qed
qed

text \<open>
  The claim as stated fails where the lower threshold finds no partition: under 1/20 the
  result is the sentinel and accounts for no value, under 1/2 both values are accounted
  for, one of them as common.
\<close>

theorem threshold_monotone_counterexample:
  "(1 / 20 :: rat) \<le> 1 / 2
   \<and> get_rare_vs_common_values [''a'', ''a'', ''a'', ''b''] (1 / 20) = (0, None, None)
   \<and> get_rare_vs_common_values [''a'', ''a'', ''a'', ''b''] (1 / 2) = (1 / 3, Some [''b''], Some [''a''])"
proof (intro conjI)
  show "(1 / 20 :: rat) \<le> 1 / 2" by simp
  show "get_rare_vs_common_values [''a'', ''a'', ''a'', ''b''] (1 / 20) = (0, None, None)"
    by code_simp
  show "get_rare_vs_common_values [''a'', ''a'', ''a'', ''b''] (1 / 2) = (1 / 3, Some [''b''], Some [''a''])"
    by code_simp
qed

text \<open>
  The amended statement at a column with counts 3, 2, 1 and the thresholds 3/5 and 2.
\<close>

theorem threshold_monotone_witness:
  "(3 / 5 :: rat) \<le> 2
   \<and> get_rare_vs_common_values [''a'', ''a'', ''a'', ''b'', ''b'', ''c''] (3 / 5) = (1 / 5, Some [''c''], Some [''a'', ''b''])
   \<and> (\<exists>r2 rare2 common2.
         get_rare_vs_common_values [''a'', ''a'', ''a'', ''b'', ''b'', ''c''] 2 = (r2, Some rare2, Some common2)
       \<and> prefix common2 [''a'', ''b''] \<and> suffix [''c''] rare2
       \<and> common2 @ rare2 = [''a'', ''b''] @ [''c'']
       \<and> length common2 + length rare2 = length [''a'', ''b''] + length [''c''])"
proof -
  have le: "(3 / 5 :: rat) \<le> 2" by simp
  have h: "get_rare_vs_common_values [''a'', ''a'', ''a'', ''b'', ''b'', ''c''] (3 / 5) = (1 / 5, Some [''c''], Some [''a'', ''b''])"
    by code_simp
  from threshold_monotone[OF le h] le h show ?thesis by (intro conjI)
qed


section \<open>Properties of the refinement\<close>

lemma all_agree_error: "all_agree i cv rest = Inl e \<Longrightarrow> e = IndexError"
  by (induction rest) (auto split: if_splits)

lemma refine_loop_out_of_range:
  "\<exists>i \<in> set is. length splt_fmt \<le> i \<Longrightarrow>
     refine_loop splt_fmt substr example rest is acc = Inl IndexError"
proof (induction "is" arbitrary: acc)
  case Nil
  then show ?case by simp
next
  case (Cons i "is")
  show ?case
  proof (cases "length splt_fmt \<le> i")
    case True
    then show ?thesis by simp
  next
    case False
    with Cons.prems have ex: "\<exists>i \<in> set is. length splt_fmt \<le> i" by auto
    note ih = Cons.IH[OF ex]
    show ?thesis
    proof (cases "all_agree i (example ! i) rest")
      case (Inl e')
      then have "e' = IndexError" by (rule all_agree_error)
      with Inl False ih show ?thesis by simp
    next
      case (Inr b)
      with False ih show ?thesis by (cases b) simp_all
    qed
  qed
qed

lemma all_agree_aligned:
  "\<forall>s \<in> set rest. i < length s \<Longrightarrow>
     all_agree i common_value rest = Inr (\<forall>s \<in> set rest. s ! i = common_value)"
  by (induction rest) simp_all

lemma refine_loop_aligned:
  assumes "\<forall>i \<in> set is. i < length splt_fmt \<and> (\<forall>s \<in> set rest. i < length s)"
  shows "refine_loop splt_fmt substr example rest is acc =
           Inr (acc @ map (\<lambda>i. if splt_fmt ! i \<noteq> substr then splt_fmt ! i
                              else if (\<forall>s \<in> set rest. s ! i = example ! i) then example ! i
                              else splt_fmt ! i) is)"
  using assms
proof (induction "is" arbitrary: acc)
  case Nil
  then show ?case by simp
next
  case (Cons i "is")
  from Cons.prems have i: "i < length splt_fmt" and r: "\<forall>s \<in> set rest. i < length s"
    and rest: "\<forall>i \<in> set is. i < length splt_fmt \<and> (\<forall>s \<in> set rest. i < length s)"
    by simp_all
  note ih = Cons.IH[OF rest]
  note ag = all_agree_aligned[OF r, of "example ! i"]
  show ?case
  proof (cases "splt_fmt ! i \<noteq> substr")
    case True
    with i ih show ?thesis by simp
  next
    case False
    show ?thesis
    proof (cases "\<forall>s \<in> set rest. s ! i = example ! i")
      case True
      with False i ih ag show ?thesis by simp
    next
      case False
      with \<open>\<not> splt_fmt ! i \<noteq> substr\<close> i ih ag show ?thesis by auto
    qed
  qed
qed

subsection \<open>A skeleton without the filler\<close>

text \<open>
  Claim C9. When the filler literal does not occur in the skeleton, the refinement
  returns the skeleton unchanged, for every list of samples, in both filler modes and
  for every pair of tokenizers.
\<close>

theorem refine_without_filler_is_identity:
  assumes "\<not> sublist substr fmt"
  shows "refine_formats_with split_keep split_keep_many fmt substr samples is_substr_sequence = Inr fmt
       \<and> refine_formats fmt substr samples is_substr_sequence = Inr fmt"
  using assms by (simp add: refine_formats_def refine_formats_with_def)

text \<open>
  A skeleton already refined, in both modes.
\<close>

theorem refine_without_filler_is_identity_witness:
  "\<not> sublist ''XXX'' ''a@gmail.com''
   \<and> refine_formats ''a@gmail.com'' ''XXX'' [''a@gmail.com''] True = Inr ''a@gmail.com''
   \<and> refine_formats ''a@gmail.com'' ''XXX'' [] False = Inr ''a@gmail.com''"
proof -
  have h: "\<not> sublist ''XXX'' ''a@gmail.com''" by code_simp
  from refine_without_filler_is_identity[OF h, of _ _ "[''a@gmail.com'']" True]
    refine_without_filler_is_identity[OF h, of _ _ "[]" False] h
  show ?thesis by (intro conjI) simp_all
qed

subsection \<open>Failures of the refinement\<close>

text \<open>
  Claim C7, amended. The source has no \<^verbatim>\<open>RefinementError\<close> and checks neither that there
  is a sample nor the arity of the samples. With an empty list of samples and the filler
  in the skeleton, \<^verbatim>\<open>split_examples[0]\<close> raises \<^verbatim>\<open>IndexError\<close>: in character mode
  always, in sequence mode once the tokenizer has returned the tokens of the skeleton.
  In character mode a first sample longer than the skeleton raises \<^verbatim>\<open>IndexError\<close> as
  well.
\<close>

theorem refine_fails_with_index_error:
  "(sublist substr fmt \<longrightarrow>
      refine_formats_with split_keep split_keep_many fmt substr [] False = Inl IndexError)
   \<and> (sublist substr fmt \<and> split_keep fmt substr = Inr splt_fmt \<longrightarrow>
        refine_formats_with split_keep split_keep_many fmt substr [] True = Inl IndexError)
   \<and> (sublist substr fmt \<and> length fmt < length s \<longrightarrow>
        refine_formats_with split_keep split_keep_many fmt substr (s # samples) False = Inl IndexError)"
proof (intro conjI impI)
  assume "sublist substr fmt"
  then show "refine_formats_with split_keep split_keep_many fmt substr [] False = Inl IndexError"
    by (simp add: refine_formats_with_def refine_tokens_def)
next
  assume "sublist substr fmt \<and> split_keep fmt substr = Inr splt_fmt"
  then show "refine_formats_with split_keep split_keep_many fmt substr [] True = Inl IndexError"
    by (simp add: refine_formats_with_def refine_tokens_def Let_def)
next
  assume a: "sublist substr fmt \<and> length fmt < length s"
  let ?splt = "map (\<lambda>c. [c]) fmt"
  let ?ex = "map (\<lambda>c. [c]) s"
  have "\<exists>i \<in> set [0 ..< length ?ex]. length ?splt \<le> i"
    using a by (intro bexI[of _ "length fmt"]) simp_all
  then have "refine_loop ?splt substr ?ex (map (map (\<lambda>c. [c])) samples) [0 ..< length ?ex] [] = Inl IndexError"
    by (rule refine_loop_out_of_range)
  with a show "refine_formats_with split_keep split_keep_many fmt substr (s # samples) False = Inl IndexError"
    by (simp add: refine_formats_with_def refine_tokens_def)
qed

text \<open>
  The skeleton \<^verbatim>\<open>X0\<close> with no sample, in both modes, and with a sample of three
  characters.
\<close>

theorem refine_fails_with_index_error_witness:
  "sublist ''X'' ''X0''
   \<and> refine_formats ''X0'' ''X'' [] False = Inl IndexError
   \<and> split_and_keep ''X0'' ''X'' = [''X'', ''0'']
   \<and> refine_formats ''X0'' ''X'' [] True = Inl IndexError
   \<and> length ''X0'' < length ''abc''
   \<and> refine_formats ''X0'' ''X'' [''abc''] False = Inl IndexError"
proof -
  have h: "sublist ''X'' ''X0''" by code_simp
  have k: "split_and_keep ''X0'' ''X'' = [''X'', ''0'']" by code_simp
  have l: "length ''X0'' < length ''abc''" by simp
  note t = refine_fails_with_index_error[where substr = "''X''" and fmt = "''X0''"
      and split_keep = "\<lambda>s separator. Inr (split_and_keep s separator)"
      and split_keep_many = "\<lambda>s separators. Inr (split_and_keep_by_many s separators)"
      and splt_fmt = "[''X'', ''0'']" and s = "''abc''" and samples = "[]"]
  from t[THEN conjunct1, rule_format, OF h]
  have a: "refine_formats ''X0'' ''X'' [] False = Inl IndexError"
    by (simp add: refine_formats_def)
  from t[THEN conjunct2, THEN conjunct1, rule_format] h k
  have b: "refine_formats ''X0'' ''X'' [] True = Inl IndexError"
    by (simp add: refine_formats_def)
  from t[THEN conjunct2, THEN conjunct2, rule_format, OF conjI[OF h l]]
  have c: "refine_formats ''X0'' ''X'' [''abc''] False = Inl IndexError"
    by (simp add: refine_formats_def)
  from h a k b l c show ?thesis by (intro conjI)
qed

text \<open>
  The claim as stated fails, in character mode, where no tokenizer is called: without
  samples the error is \<^verbatim>\<open>IndexError\<close>; a first sample shorter than the skeleton raises
  nothing; a later sample that is too short raises \<^verbatim>\<open>IndexError\<close>.
\<close>

theorem refine_no_refinement_error_counterexample:
  "sublist ''X'' ''X0''
   \<and> refine_formats ''X0'' ''X'' [] False = Inl IndexError
   \<and> refine_formats ''X0'' ''X'' [''a''] False = Inr ''a''
   \<and> refine_formats ''XX'' ''X'' [''ab'', ''a''] False = Inl IndexError"
  by code_simp

subsection \<open>Position-wise refinement and scenario C\<close>

text \<open>
  Claim C4. With the tokenizers as the specification describes them, the skeleton
  \<^verbatim>\<open>XXX@XXX.XXX\<close> with the samples \<^verbatim>\<open>foo@gmail.com\<close>, \<^verbatim>\<open>bar@gmail.com\<close>, \<^verbatim>\<open>baz@gmail.com\<close>
  is refined to \<^verbatim>\<open>XXX@gmail.com\<close> in sequence mode. In general, for every pair of
  tokenizers that return and give every sample as many tokens as the skeleton: a token
  of the skeleton that is not the filler is kept; a filler token is replaced by the
  token of the samples at that position when all samples have the same token there, and
  is kept otherwise.
\<close>

theorem refine_scenario_C:
  "refine_formats ''XXX@XXX.XXX'' ''XXX'' [''foo@gmail.com'', ''bar@gmail.com'', ''baz@gmail.com''] True
     = Inr ''XXX@gmail.com''
   \<and> (sublist substr fmt
        \<and> split_keep fmt substr = Inr splt_fmt
        \<and> map_result (\<lambda>s. split_keep_many s (filter (\<lambda>x. x \<noteq> substr) splt_fmt)) samples
            = Inr (example # rest)
        \<and> length example = length splt_fmt
        \<and> (\<forall>s \<in> set rest. length s = length splt_fmt)
      \<longrightarrow> refine_formats_with split_keep split_keep_many fmt substr samples True
            = Inr (concat (map (\<lambda>i. if splt_fmt ! i \<noteq> substr then splt_fmt ! i
                                     else if (\<forall>s \<in> set rest. s ! i = example ! i) then example ! i
                                     else splt_fmt ! i) [0 ..< length splt_fmt])))"
proof (intro conjI impI)
  show "refine_formats ''XXX@XXX.XXX'' ''XXX'' [''foo@gmail.com'', ''bar@gmail.com'', ''baz@gmail.com''] True
     = Inr ''XXX@gmail.com''"
    by code_simp
next
  assume a: "sublist substr fmt
        \<and> split_keep fmt substr = Inr splt_fmt
        \<and> map_result (\<lambda>s. split_keep_many s (filter (\<lambda>x. x \<noteq> substr) splt_fmt)) samples
            = Inr (example # rest)
        \<and> length example = length splt_fmt
        \<and> (\<forall>s \<in> set rest. length s = length splt_fmt)"
  have "\<forall>i \<in> set [0 ..< length example]. i < length splt_fmt \<and> (\<forall>s \<in> set rest. i < length s)"
    using a by simp
  from refine_loop_aligned[OF this, of substr example "[]"] a
  show "refine_formats_with split_keep split_keep_many fmt substr samples True
            = Inr (concat (map (\<lambda>i. if splt_fmt ! i \<noteq> substr then splt_fmt ! i
                                     else if (\<forall>s \<in> set rest. s ! i = example ! i) then example ! i
                                     else splt_fmt ! i) [0 ..< length splt_fmt]))"
    by (simp add: refine_formats_with_def refine_tokens_def Let_def)
qed

text \<open>
  The general rule at the tokens of scenario C.
\<close>

theorem refine_scenario_C_witness:
  "sublist ''XXX'' ''XXX@XXX.XXX''
   \<and> split_and_keep ''XXX@XXX.XXX'' ''XXX'' = [''XXX'', ''@'', ''XXX'', ''.'', ''XXX'']
   \<and> map (\<lambda>s. split_and_keep_by_many s (filter (\<lambda>x. x \<noteq> ''XXX'') [''XXX'', ''@'', ''XXX'', ''.'', ''XXX'']))
        [''foo@gmail.com'', ''bar@gmail.com'', ''baz@gmail.com'']
       = [''foo'', ''@'', ''gmail'', ''.'', ''com'']
         # [[''bar'', ''@'', ''gmail'', ''.'', ''com''], [''baz'', ''@'', ''gmail'', ''.'', ''com'']]
   \<and> refine_formats_with (\<lambda>s separator. Inr (split_and_keep s separator))
        (\<lambda>s separators. Inr (split_and_keep_by_many s separators)) ''XXX@XXX.XXX'' ''XXX''
        [''foo@gmail.com'', ''bar@gmail.com'', ''baz@gmail.com''] True
       = Inr (concat [''XXX'', ''@'', ''gmail'', ''.'', ''com''])"
proof -
  have h1: "sublist ''XXX'' ''XXX@XXX.XXX''" by code_simp
  have h2: "split_and_keep ''XXX@XXX.XXX'' ''XXX'' = [''XXX'', ''@'', ''XXX'', ''.'', ''XXX'']"
    by code_simp
  have h3: "map (\<lambda>s. split_and_keep_by_many s (filter (\<lambda>x. x \<noteq> ''XXX'') [''XXX'', ''@'', ''XXX'', ''.'', ''XXX'']))
        [''foo@gmail.com'', ''bar@gmail.com'', ''baz@gmail.com'']
       = [''foo'', ''@'', ''gmail'', ''.'', ''com'']
         # [[''bar'', ''@'', ''gmail'', ''.'', ''com''], [''baz'', ''@'', ''gmail'', ''.'', ''com'']]"
    by code_simp
  have k2: "(\<lambda>s separator. Inr (split_and_keep s separator)) ''XXX@XXX.XXX'' ''XXX''
              = (Inr [''XXX'', ''@'', ''XXX'', ''.'', ''XXX''] :: py_error + string list)"
    using h2 by simp
  have k3: "map_result (\<lambda>s. (\<lambda>s separators. Inr (split_and_keep_by_many s separators)) s
                (filter (\<lambda>x. x \<noteq> ''XXX'') [''XXX'', ''@'', ''XXX'', ''.'', ''XXX'']))
        [''foo@gmail.com'', ''bar@gmail.com'', ''baz@gmail.com'']
       = (Inr ([''foo'', ''@'', ''gmail'', ''.'', ''com'']
         # [[''bar'', ''@'', ''gmail'', ''.'', ''com''], [''baz'', ''@'', ''gmail'', ''.'', ''com'']])
           :: py_error + string list list)"
    by code_simp
  have h4: "length [''foo'', ''@'', ''gmail'', ''.'', ''com''] = length [''XXX'', ''@'', ''XXX'', ''.'', ''XXX'']"
    by simp
  have h5: "\<forall>s \<in> set [[''bar'', ''@'', ''gmail'', ''.'', ''com''], [''baz'', ''@'', ''gmail'', ''.'', ''com'']].
              length s = length [''XXX'', ''@'', ''XXX'', ''.'', ''XXX'']"
    by simp
  note t = refine_scenario_C[where substr = "''XXX''" and fmt = "''XXX@XXX.XXX''"
      and split_keep = "\<lambda>s separator. Inr (split_and_keep s separator)"
      and split_keep_many = "\<lambda>s separators. Inr (split_and_keep_by_many s separators)"
      and splt_fmt = "[''XXX'', ''@'', ''XXX'', ''.'', ''XXX'']"
      and samples = "[''foo@gmail.com'', ''bar@gmail.com'', ''baz@gmail.com'']"
      and example = "[''foo'', ''@'', ''gmail'', ''.'', ''com'']"
      and rest = "[[''bar'', ''@'', ''gmail'', ''.'', ''com''], [''baz'', ''@'', ''gmail'', ''.'', ''com'']]",
      THEN conjunct2, rule_format, OF conjI[OF h1 conjI[OF k2 conjI[OF k3 conjI[OF h4 h5]]]]]
  have e: "map (\<lambda>i. if [''XXX'', ''@'', ''XXX'', ''.'', ''XXX''] ! i \<noteq> ''XXX''
                     then [''XXX'', ''@'', ''XXX'', ''.'', ''XXX''] ! i
                     else if (\<forall>s \<in> set [[''bar'', ''@'', ''gmail'', ''.'', ''com''], [''baz'', ''@'', ''gmail'', ''.'', ''com'']].
                                s ! i = [''foo'', ''@'', ''gmail'', ''.'', ''com''] ! i)
                          then [''foo'', ''@'', ''gmail'', ''.'', ''com''] ! i
                          else [''XXX'', ''@'', ''XXX'', ''.'', ''XXX''] ! i)
              [0 ..< length [''XXX'', ''@'', ''XXX'', ''.'', ''XXX'']]
           = [''XXX'', ''@'', ''gmail'', ''.'', ''com'']"
    by (simp add: upt_rec)
  from t e h1 h2 h3 show ?thesis by (intro conjI) simp_all
qed

section \<open>Properties of the detection\<close>

lemma get_rare_shape:
  "get_rare_vs_common_values col thr = (0, None, None)
   \<or> (\<exists>r rare common. r \<noteq> 0 \<and> get_rare_vs_common_values col thr = (r, Some rare, Some common))"
proof (cases rule: get_rare_cases[of col thr])
  case sentinel
  then show ?thesis by simp
next
  case (found i)
  define rs where "rs = sum_list (map snd (drop (Suc i) (ranking col)))"
  define cs where "cs = sum_list (map snd (take (Suc i) (ranking col)))"
  have "0 < rs" unfolding rs_def using found(1) by (rule drop_counts_pos)
  then have a: "0 < (of_nat rs :: rat)" by (simp only: of_nat_0_less_iff)
  have "0 < cs" unfolding cs_def using found(1) by (rule take_counts_pos)
  then have b: "0 < (of_nat cs :: rat)" by (simp only: of_nat_0_less_iff)
  from a b have "0 < (of_nat rs :: rat) / of_nat cs" by (rule divide_pos_pos)
  then have "(of_nat rs :: rat) / of_nat cs \<noteq> 0" by (rule less_imp_neq[THEN not_sym])
  then have "(of_nat (sum_list (map snd (drop (Suc i) (ranking col)))) :: rat)
              / of_nat (sum_list (map snd (take (Suc i) (ranking col)))) \<noteq> 0"
    unfolding rs_def cs_def .
  with found(4) show ?thesis by blast
qed

lemma not_significant_without_substituters:
  "substituters p = [] \<Longrightarrow> \<not> list_ex (is_format_significant p) fmts"
  by (simp add: is_format_significant_def list_ex_iff)

lemma detect_without_substituters:
  assumes "substituters p = []"
  shows "detect_per_column_and_pattern column p thr exclude_samples = Inr None"
proof -
  from get_rare_shape[of "map (sub p) column" thr]
  show ?thesis
  proof
    assume "get_rare_vs_common_values (map (sub p) column) thr = (0, None, None)"
    then show ?thesis by (simp add: detect_per_column_and_pattern_def)
  next
    assume "\<exists>r rare common. r \<noteq> 0 \<and>
      get_rare_vs_common_values (map (sub p) column) thr = (r, Some rare, Some common)"
    then obtain r rare common where "r \<noteq> 0"
      "get_rare_vs_common_values (map (sub p) column) thr = (r, Some rare, Some common)" by blast
    then show ?thesis
      using not_significant_without_substituters[OF assms, of common]
      by (simp add: detect_per_column_and_pattern_def)
  qed
qed

subsection \<open>Configuration errors\<close>

text \<open>
  Claim C8, amended. A match mode other than \<^verbatim>\<open>first\<close> and \<^verbatim>\<open>all\<close> makes the entry
  point raise \<^verbatim>\<open>MLChecksValueError\<close> whatever the dataset, the columns and the patterns
  are, so before any column is looked up or analysed. A pattern whose list of
  substituters is empty is not rejected: it raises no error and gives no finding, on
  every column.
\<close>

theorem configuration_errors:
  "(pattern_match_method \<noteq> ''first'' \<and> pattern_match_method \<noteq> ''all'' \<longrightarrow>
      rare_format_detection ds cn patterns thr pattern_match_method = Inl MLChecksValueError)
   \<and> (substituters p = [] \<longrightarrow>
        detect_per_column_and_pattern column p thr exclude_samples = Inr None
      \<and> detect_per_column column [p] thr pattern_match_method = Inr [])"
proof (intro conjI impI)
  assume "pattern_match_method \<noteq> ''first'' \<and> pattern_match_method \<noteq> ''all''"
  then show "rare_format_detection ds cn patterns thr pattern_match_method = Inl MLChecksValueError"
    by (simp add: rare_format_detection_def)
next
  assume e: "substituters p = []"
  then show "detect_per_column_and_pattern column p thr exclude_samples = Inr None"
    by (rule detect_without_substituters)
  show "detect_per_column column [p] thr pattern_match_method = Inr []"
    by (simp add: detect_per_column_def detect_without_substituters[OF e] dropna_def)
qed

text \<open>
  An invalid match mode wins over the unknown column that a valid mode reports; a pattern
  without substituters gives no finding.
\<close>

theorem configuration_errors_witness:
  "''any'' \<noteq> ''first'' \<and> ''any'' \<noteq> ''all''
   \<and> rare_format_detection \<lparr>data = [], features = [''c'']\<rparr> NoNames DEFAULT_PATTERNS (1 / 20) ''any''
       = Inl MLChecksValueError
   \<and> rare_format_detection \<lparr>data = [], features = [''c'']\<rparr> NoNames DEFAULT_PATTERNS (1 / 20) ''first''
       = Inl KeyError
   \<and> substituters (digits_and_letters_ignoring_hyphen\<lparr>substituters := []\<rparr>) = []
   \<and> detect_per_column [''AB-001'', ''AB-002'', ''AB-003'', ''XY-1'']
        [digits_and_letters_ignoring_hyphen\<lparr>substituters := []\<rparr>] (1 / 2) ''first'' = Inr []"
proof -
  have m: "''any'' \<noteq> ''first'' \<and> ''any'' \<noteq> ''all''" by simp
  have k: "rare_format_detection \<lparr>data = [], features = [''c'']\<rparr> NoNames DEFAULT_PATTERNS (1 / 20) ''first''
       = Inl KeyError"
    by (simp add: rare_format_detection_def selected_columns_def)
  have s: "substituters (digits_and_letters_ignoring_hyphen\<lparr>substituters := []\<rparr>) = []" by simp
  note t = configuration_errors[of "''any''" "\<lparr>data = [], features = [''c'']\<rparr>" NoNames DEFAULT_PATTERNS "1 / 20"
      "digits_and_letters_ignoring_hyphen\<lparr>substituters := []\<rparr>"]
  note t1 = t[THEN conjunct1, rule_format, OF m]
  note t2 = configuration_errors[of "''first''" _ _ _ "1 / 2"
      "digits_and_letters_ignoring_hyphen\<lparr>substituters := []\<rparr>"
      "[''AB-001'', ''AB-002'', ''AB-003'', ''XY-1'']", THEN conjunct2, rule_format, OF s, THEN conjunct2]
  from m t1 k s t2 show ?thesis by (intro conjI) simp_all
qed

text \<open>
  The claim as stated fails: the entry point accepts a pattern whose list of substituters
  is empty and returns a result.
\<close>

theorem empty_rule_list_accepted_counterexample:
  "substituters (digits_and_letters_ignoring_hyphen\<lparr>substituters := []\<rparr>) = []
   \<and> rare_format_detection
        \<lparr>data = [(''c'', [''AB-001'', ''AB-002'', ''AB-003'', ''XY-1''])], features = [''c'']\<rparr> NoNames
        [digits_and_letters_ignoring_hyphen\<lparr>substituters := []\<rparr>] (1 / 2) ''first''
       = Inr [(''c'', [])]"
  by code_simp

subsection \<open>Scenario B\<close>

text \<open>
  Claim C5, amended. On the column \<^verbatim>\<open>AB-001\<close>, \<^verbatim>\<open>AB-002\<close>, \<^verbatim>\<open>AB-003\<close>, \<^verbatim>\<open>XY-1\<close> the pattern
  of digits and letters that ignores the hyphen gives the skeletons \<^verbatim>\<open>XX000\<close> three times
  and \<^verbatim>\<open>XX0\<close> once. With the threshold 0.05 no sharp drop is found, since 1 < 0.05 * 3
  is false: the partition is the sentinel and the pattern has no finding. With the
  threshold 0.5 the drop is found: the common format is \<^verbatim>\<open>XX000\<close>, the rare format is
  \<^verbatim>\<open>XX0\<close>, the ratio is 1/3 and the rare value is \<^verbatim>\<open>XY-1\<close>.
\<close>

theorem scenario_B:
  "map (sub digits_and_letters_ignoring_hyphen) [''AB-001'', ''AB-002'', ''AB-003'', ''XY-1'']
     = [''XX000'', ''XX000'', ''XX000'', ''XX0'']
   \<and> ranking [''XX000'', ''XX000'', ''XX000'', ''XX0''] = [(''XX000'', 3), (''XX0'', 1)]
   \<and> \<not> ((of_nat 1 :: rat) < 5 / 100 * of_nat 3)
   \<and> get_rare_vs_common_values [''XX000'', ''XX000'', ''XX000'', ''XX0''] (5 / 100) = (0, None, None)
   \<and> detect_per_column_and_pattern [''AB-001'', ''AB-002'', ''AB-003'', ''XY-1'']
        digits_and_letters_ignoring_hyphen (5 / 100) [] = Inr None
   \<and> get_rare_vs_common_values [''XX000'', ''XX000'', ''XX000'', ''XX0''] (1 / 2)
       = (1 / 3, Some [''XX0''], Some [''XX000''])
   \<and> detect_per_column_and_pattern [''AB-001'', ''AB-002'', ''AB-003'', ''XY-1'']
        digits_and_letters_ignoring_hyphen (1 / 2) []
       = Inr (Some \<lparr>ratio_of_rare_to_common = 1 / 3, common_formats = [''XX000''],
                     common_values_examples = [''AB-001''], values_in_rare_formats = [''XY-1'']\<rparr>)"
  by code_simp

text \<open>
  The claim as stated fails: with the threshold 0.05 there is no partition and no
  finding.
\<close>

theorem scenario_B_counterexample:
  "get_rare_vs_common_values
     (map (sub digits_and_letters_ignoring_hyphen) [''AB-001'', ''AB-002'', ''AB-003'', ''XY-1'']) (5 / 100)
     = (0, None, None)
   \<and> detect_per_column_and_pattern [''AB-001'', ''AB-002'', ''AB-003'', ''XY-1'']
        digits_and_letters_ignoring_hyphen (5 / 100) [] = Inr None"
  by code_simp

subsection \<open>The rare values of a finding and of a result\<close>

lemma detect_finding_excludes:
  assumes "detect_per_column_and_pattern column p thr exclude_samples = Inr (Some f)"
  shows "distinct (values_in_rare_formats f)
       \<and> set (values_in_rare_formats f) \<inter> set exclude_samples = {}
       \<and> set (values_in_rare_formats f) \<subseteq> set column"
proof -
  from assms obtain rare_fmts where
    f: "values_in_rare_formats f =
          unique (filter (\<lambda>v. v \<notin> set exclude_samples)
                    (map fst (filter (\<lambda>r. snd r \<in> set rare_fmts) (zip column (map (sub p) column)))))"
    unfolding detect_per_column_and_pattern_def Let_def
    by (auto split: prod.splits if_splits option.splits sum.splits)
  have "set (map fst (filter (\<lambda>r. snd r \<in> set rare_fmts) (zip column (map (sub p) column)))) \<subseteq> set column"
    by (auto dest: set_zip_leftD)
  then show ?thesis unfolding f by (auto simp: set_unique distinct_unique)
qed

lemma rare_values_of_simps:
  "rare_values_of None = []"
  "rare_values_of (Some f) = values_in_rare_formats f"
  by (simp_all add: rare_values_of_def)

lemma reported_dropna_Nil: "reported_rare_values (dropna []) = []"
  by (simp add: reported_rare_values_def dropna_def)

lemma reported_dropna_Cons:
  "reported_rare_values (dropna ((k, v) # rs)) = rare_values_of v @ reported_rare_values (dropna rs)"
  by (cases v) (simp_all add: reported_rare_values_def dropna_def rare_values_of_def)

lemma reported_update_subset:
  "set (reported_rare_values (dropna (AList.update k v rs)))
     \<subseteq> set (reported_rare_values (dropna rs)) \<union> set (rare_values_of v)"
proof (induction rs)
  case Nil
  show ?case by (simp add: reported_dropna_Cons reported_dropna_Nil)
next
  case (Cons r rs)
  obtain k' v' where r: "r = (k', v')" by (cases r)
  show ?case
  proof (cases "k' = k")
    case True
    then show ?thesis by (auto simp: r reported_dropna_Cons)
  next
    case False
    with Cons show ?thesis by (auto simp: r reported_dropna_Cons)
  qed
qed

lemma reported_update_distinct:
  assumes "distinct (reported_rare_values (dropna rs))"
    and "distinct (rare_values_of v)"
    and "set (rare_values_of v) \<inter> set (reported_rare_values (dropna rs)) = {}"
  shows "distinct (reported_rare_values (dropna (AList.update k v rs)))"
  using assms
proof (induction rs)
  case Nil
  then show ?case by (simp add: reported_dropna_Cons reported_dropna_Nil)
next
  case (Cons r rs)
  obtain k' v' where r: "r = (k', v')" by (cases r)
  from Cons.prems have dv': "distinct (rare_values_of v')"
    and d: "distinct (reported_rare_values (dropna rs))"
    and v'rs: "set (rare_values_of v') \<inter> set (reported_rare_values (dropna rs)) = {}"
    and vv': "set (rare_values_of v) \<inter> set (rare_values_of v') = {}"
    and i: "set (rare_values_of v) \<inter> set (reported_rare_values (dropna rs)) = {}"
    by (auto simp: r reported_dropna_Cons)
  show ?case
  proof (cases "k' = k")
    case True
    with Cons.prems(2) d i show ?thesis by (simp add: r reported_dropna_Cons)
  next
    case False
    note ih = Cons.IH[OF d Cons.prems(2) i]
    have "set (rare_values_of v') \<inter> set (reported_rare_values (dropna (AList.update k v rs))) = {}"
      using reported_update_subset[of k v rs] v'rs vv' by blast
    with False dv' ih show ?thesis by (simp add: r reported_dropna_Cons)
  qed
qed

lemma detect_loop_first_distinct:
  assumes "detect_loop column thr ''first'' ps rs ign = Inr out"
    and "distinct (reported_rare_values (dropna rs))"
    and "set (reported_rare_values (dropna rs)) \<subseteq> set ign"
  shows "distinct (reported_rare_values (dropna out))"
  using assms
proof (induction ps arbitrary: rs ign)
  case Nil
  then show ?case by simp
next
  case (Cons p ps)
  from Cons.prems(1) obtain res where
    res: "detect_per_column_and_pattern column p thr ign = Inr res"
    by (auto split: sum.splits)
  let ?rs = "AList.update (name p) res rs"
  let ?ign = "ign @ rare_values_of res"
  from Cons.prems(1) res have loop: "detect_loop column thr ''first'' ps ?rs ?ign = Inr out"
    by (cases res) (simp_all add: rare_values_of_simps)
  have v: "distinct (rare_values_of res) \<and> set (rare_values_of res) \<inter> set ign = {}"
    using detect_finding_excludes[of column p thr ign] res
    by (cases res) (simp_all add: rare_values_of_simps)
  with Cons.prems(3) have disj: "set (rare_values_of res) \<inter> set (reported_rare_values (dropna rs)) = {}"
    by blast
  have d: "distinct (reported_rare_values (dropna ?rs))"
    using Cons.prems(2) v disj by (intro reported_update_distinct) simp_all
  have s: "set (reported_rare_values (dropna ?rs)) \<subseteq> set ?ign"
    using reported_update_subset[of "name p" res rs] Cons.prems(3) by auto
  from Cons.IH[OF loop d s] show ?case .
qed

lemma distinct_concat_nth_disjoint:
  "distinct (concat xss) \<Longrightarrow> i < length xss \<Longrightarrow> j < length xss \<Longrightarrow> i \<noteq> j
     \<Longrightarrow> set (xss ! i) \<inter> set (xss ! j) = {}"
proof (induction xss arbitrary: i j)
  case Nil
  then show ?case by simp
next
  case (Cons xs xss)
  from Cons.prems(1) have d: "distinct (concat xss)"
    and x: "set xs \<inter> set (concat xss) = {}" by simp_all
  have in_concat: "set (xss ! k) \<subseteq> set (concat xss)" if "k < length xss" for k
  proof -
    from that have "xss ! k \<in> set xss" by (rule nth_mem)
    then show ?thesis by auto
  qed
  show ?case
  proof (cases i)
    case 0
    with Cons.prems obtain j' where j: "j = Suc j'" "j' < length xss" by (cases j) auto
    with 0 x in_concat[of j'] show ?thesis by auto
  next
    case (Suc i')
    show ?thesis
    proof (cases j)
      case 0
      with Suc Cons.prems x in_concat[of i'] show ?thesis by auto
    next
      case (Suc j')
      with \<open>i = Suc i'\<close> Cons.prems Cons.IH[OF d, of i' j'] show ?thesis by simp
    qed
  qed
qed

subsection \<open>Exclusive findings in the mode \<^verbatim>\<open>first\<close>\<close>

text \<open>
  Claim C6. When a column is analysed with the match mode \<^verbatim>\<open>first\<close>, the rare values of
  all findings together hold no raw value twice: no value is among the rare values of
  the findings of two patterns.
\<close>

theorem first_match_exclusive:
  assumes "detect_per_column column patterns thr ''first'' = Inr results"
  shows "distinct (reported_rare_values results)
       \<and> (\<forall>i < length results. \<forall>j < length results. i \<noteq> j \<longrightarrow>
            set (values_in_rare_formats (snd (results ! i)))
              \<inter> set (values_in_rare_formats (snd (results ! j))) = {})"
proof -
  from assms obtain out where out: "detect_loop column thr ''first'' patterns [] [] = Inr out"
    and results: "results = dropna out"
    by (auto simp: detect_per_column_def split: sum.splits)
  have d: "distinct (reported_rare_values results)"
    unfolding results
    by (rule detect_loop_first_distinct[OF out]) (simp_all add: reported_dropna_Nil)
  then have c: "distinct (concat (map (\<lambda>r. values_in_rare_formats (snd r)) results))"
    by (simp add: reported_rare_values_def)
  have "\<forall>i < length results. \<forall>j < length results. i \<noteq> j \<longrightarrow>
            set (values_in_rare_formats (snd (results ! i)))
              \<inter> set (values_in_rare_formats (snd (results ! j))) = {}"
  proof (intro allI impI)
    fix i j assume "i < length results" "j < length results" "i \<noteq> j"
    with distinct_concat_nth_disjoint[OF c, of i j]
    show "set (values_in_rare_formats (snd (results ! i)))
              \<inter> set (values_in_rare_formats (snd (results ! j))) = {}" by simp
  qed
  with d show ?thesis by simp
qed

text \<open>
  A column on which the first two default patterns have a finding each; in the mode
  \<^verbatim>\<open>all\<close> the value \<^verbatim>\<open>A-\<close> would be reported by both.
\<close>

theorem first_match_exclusive_witness:
  "detect_per_column
     [''AB'', ''CD'', ''ab'', ''cd'', ''Ab'', ''Cd'', ''aB'', ''cD'', ''01'', ''02'', ''A-'']
     DEFAULT_PATTERNS (3 / 4) ''first''
   = Inr [(''digits and letters format (case sensitive)'',
           \<lparr>ratio_of_rare_to_common = 1 / 10,
            common_formats = [''XX'', ''xx'', ''Xx'', ''xX'', ''00''],
            common_values_examples = [''AB'', ''ab'', ''Ab'', ''aB'', ''01''],
            values_in_rare_formats = [''A-'']\<rparr>),
          (''digits and letters format'',
           \<lparr>ratio_of_rare_to_common = 3 / 8, common_formats = [''XX''],
            common_values_examples = [''AB''],
            values_in_rare_formats = [''01'', ''02'']\<rparr>)]
   \<and> distinct ([''A-''] @ [''01'', ''02''])
   \<and> set [''A-''] \<inter> set [''01'', ''02''] = {}"
proof -
  have h: "detect_per_column
     [''AB'', ''CD'', ''ab'', ''cd'', ''Ab'', ''Cd'', ''aB'', ''cD'', ''01'', ''02'', ''A-'']
     DEFAULT_PATTERNS (3 / 4) ''first''
   = Inr [(''digits and letters format (case sensitive)'',
           \<lparr>ratio_of_rare_to_common = 1 / 10,
            common_formats = [''XX'', ''xx'', ''Xx'', ''xX'', ''00''],
            common_values_examples = [''AB'', ''ab'', ''Ab'', ''aB'', ''01''],
            values_in_rare_formats = [''A-'']\<rparr>),
          (''digits and letters format'',
           \<lparr>ratio_of_rare_to_common = 3 / 8, common_formats = [''XX''],
            common_values_examples = [''AB''],
            values_in_rare_formats = [''01'', ''02'']\<rparr>)]"
    by code_simp
  note t = first_match_exclusive[OF h]
  from t[THEN conjunct1] have d: "distinct ([''A-''] @ [''01'', ''02''])"
    by (simp add: reported_rare_values_def)
  from t[THEN conjunct2, THEN spec[where x = 0], rule_format, of 1]
  have i: "set [''A-''] \<inter> set [''01'', ''02''] = {}" by simp
  from h d i show ?thesis by (intro conjI)
qed

end
